theory Spec2Isabelle
  imports Main "HOL-Library.Sublist"
begin

section \<open>Strings and characters as the JavaScript source uses them\<close>

text \<open>
  Strings are byte strings (UTF-8).  \<open>toLowerCase\<close> is modelled on the ASCII letters only:
  no code point outside ASCII lower-cases to one of the letters of \<open>short\<close>, and the bytes
  of a non-ASCII code point are all above 127, so the substring tests below agree with
  JavaScript's.
\<close>

definition toLowerCase_char :: "char \<Rightarrow> char" where
  "toLowerCase_char c =
     (let n = (of_char c :: nat) in if 65 \<le> n \<and> n \<le> 90 then char_of (n + 32) else c)"

definition toLowerCase :: "string \<Rightarrow> string" where
  "toLowerCase s = map toLowerCase_char s"

text \<open>\<open>s.includes(sub)\<close>: \<open>sub\<close> occurs in \<open>s\<close> as a contiguous substring.\<close>

fun str_includes :: "string \<Rightarrow> string \<Rightarrow> bool" where
  "str_includes [] sub = (sub = [])"
| "str_includes (c # cs) sub = (prefix sub (c # cs) \<or> str_includes cs sub)"

definition is_digit :: "char \<Rightarrow> bool" where
  "is_digit c = (let n = (of_char c :: nat) in 48 \<le> n \<and> n \<le> 57)"

definition digit_val :: "char \<Rightarrow> nat" where
  "digit_val c = of_char c - 48"

text \<open>
  \<open>parseInt\<close> on a string of decimal digits.  JavaScript numbers are doubles: the value is
  exact while it stays below \<open>2 ^ 53\<close>.
\<close>

definition parseInt_digits :: "string \<Rightarrow> nat" where
  "parseInt_digits ds = foldl (\<lambda>acc c. 10 * acc + digit_val c) 0 ds"

section \<open>YouTubeAPIClient: duration decoding and Shorts classification\<close>

text \<open>
  The regular expression \<open>/PT(?:(\d+)H)?(?:(\d+)M)?(?:(\d+)S)?/\<close> is not anchored:
  \<open>duration.match\<close> finds the leftmost \<open>PT\<close>.  \<open>find_PT\<close> returns the text that follows it.
\<close>

fun find_PT :: "string \<Rightarrow> string option" where
  "find_PT (c # d # cs) =
     (if c = CHR ''P'' \<and> d = CHR ''T'' then Some cs else find_PT (d # cs))"
| "find_PT _ = None"

text \<open>
  One optional group \<open>(?:(\d+)U)?\<close> at the head of \<open>s\<close>: the greedy \<open>\d+\<close> takes the
  whole run of digits, and the group matches when that run is not empty and the unit letter
  follows it; otherwise the group is skipped and nothing is consumed.
\<close>

definition match_component :: "char \<Rightarrow> string \<Rightarrow> string option \<times> string" where
  "match_component u s =
     (let ds = takeWhile is_digit s; rest = dropWhile is_digit s
      in case rest of
           [] \<Rightarrow> (None, s)
         | r # rs \<Rightarrow> if ds \<noteq> [] \<and> r = u then (Some ds, rs) else (None, s))"

text \<open>The capture groups 1 to 3 of the match, or \<open>None\<close> when the string has no match.\<close>

definition match_duration :: "string \<Rightarrow> (string option \<times> string option \<times> string option) option" where
  "match_duration duration =
     (case find_PT duration of
        None \<Rightarrow> None
      | Some s0 \<Rightarrow>
          (let (h, s1) = match_component CHR ''H'' s0;
               (m, s2) = match_component CHR ''M'' s1;
               (s, s3) = match_component CHR ''S'' s2
           in Some (h, m, s)))"

text \<open>\<open>parseInt(matches[i]) || 0\<close>: an unmatched group is \<open>undefined\<close>, which parses to NaN.\<close>

definition parseInt_or_0 :: "string option \<Rightarrow> nat" where
  "parseInt_or_0 g = (case g of None \<Rightarrow> 0 | Some ds \<Rightarrow> parseInt_digits ds)"

definition parseDuration :: "string \<Rightarrow> nat" where
  "parseDuration duration =
     (case match_duration duration of
        None \<Rightarrow> 0
      | Some (h, m, s) \<Rightarrow>
          (let hours = parseInt_or_0 h; minutes = parseInt_or_0 m; seconds = parseInt_or_0 s
           in hours * 3600 + minutes * 60 + seconds))"

text \<open>
  \<open>isShort(categoryId, duration, tags)\<close>.  \<open>categoryId\<close> and \<open>tags\<close> may be \<open>undefined\<close>
  (\<open>None\<close>); the checks are in the order of the source.
\<close>

definition has_short_tag :: "string list option \<Rightarrow> bool" where
  "has_short_tag tags =
     (case tags of
        None \<Rightarrow> False
      | Some ts \<Rightarrow> list_ex (\<lambda>tag. str_includes (toLowerCase tag) ''short''
                                \<or> str_includes (toLowerCase tag) ''shorts'') ts)"

definition isShort :: "string option \<Rightarrow> int \<Rightarrow> string list option \<Rightarrow> bool" where
  "isShort categoryId duration tags =
     (if duration \<le> 60 then True
      else if has_short_tag tags then True
      else if categoryId = Some ''23'' then True
      else duration \<le> 61)"

text \<open>
  The shape of a well-formed token, for comparison with the decoder: \<open>PT\<close>, then the
  digits of each component that is present, each followed by its unit letter.  An empty
  digit string stands for an absent component.
\<close>

definition group_text :: "string \<Rightarrow> char \<Rightarrow> string" where
  "group_text ds u = (if ds = [] then [] else ds @ [u])"

definition duration_token :: "string \<Rightarrow> string \<Rightarrow> string \<Rightarrow> string" where
  "duration_token hs ms ss =
     ''PT'' @ group_text hs CHR ''H'' @ group_text ms CHR ''M'' @ group_text ss CHR ''S''"

section \<open>Exceptions\<close>

text \<open>Decimal rendering of a number inside a template string.\<close>

fun show_nat :: "nat \<Rightarrow> string" where
  "show_nat n =
     (if n < 10 then [char_of (48 + n)] else show_nat (n div 10) @ [char_of (48 + n mod 10)])"

declare show_nat.simps [simp del]

text \<open>
  What \<open>axios\<close> rejects with: a response outside 2xx (\<open>error.response\<close>: the status, and
  from the body \<open>data.error.message\<close> and \<open>data.error.errors[0].reason\<close>), a request that
  got no response (\<open>error.request\<close>), or a failure while setting the request up.  The last
  two carry \<open>error.message\<close>.
\<close>

datatype axios_failure =
    BadStatus nat "string option" "string option"
  | NoResponse string
  | SetupFailure string

text \<open>
  The values the modelled code throws: \<open>new Error(msg)\<close>, a \<open>TypeError\<close> of the runtime, the
  raw rejection of \<open>axios\<close>, and the rejection of a rate limiter.  \<open>exn_message\<close> reads
  \<open>error.message\<close>, which the rejection of a limiter does not have.
\<close>

datatype exn =
    Error string
  | TypeError string
  | AxiosError axios_failure
  | QuotaExceeded

fun exn_message :: "exn \<Rightarrow> string" where
  "exn_message (Error m) = m"
| "exn_message (TypeError m) = m"
| "exn_message (AxiosError (BadStatus st m r)) =
     ''Request failed with status code '' @ show_nat st"
| "exn_message (AxiosError (NoResponse m)) = m"
| "exn_message (AxiosError (SetupFailure m)) = m"
| "exn_message QuotaExceeded = ''undefined''"

section \<open>Quota Tracker and Response Cache\<close>

text \<open>
  A rate limiter: its budget (the option \<open>points\<close>) and the points consumed in the
  current window.
\<close>

record limiter =
  points :: nat
  consumed :: nat

text \<open>
  Modelled from the spec: \<open>RateLimiterMemory.consume\<close> (package \<open>rate-limiter-flexible\<close>) is
  not under \<open>src/\<close>; only the two instances and their options are.  Section 4.1: a
  consumption that the remaining budget cannot cover fails with \<open>QuotaExceeded\<close> and
  consumes nothing.  The replenishment of a window with time is left to the environment
  (\<open>elapse5\<close> below).
\<close>

definition consume :: "limiter \<Rightarrow> nat \<Rightarrow> exn + limiter" where
  "consume l n =
     (if consumed l + n \<le> points l then Inr (l\<lparr>consumed := consumed l + n\<rparr>)
      else Inl QuotaExceeded)"


text \<open>The two module-level limiters of the client, with the options of the source.\<close>

record quota =
  rateLimiter :: limiter
  minuteRateLimiter :: limiter

definition initial_quota :: quota where
  "initial_quota =
     \<lparr>rateLimiter = \<lparr>points = 10000, consumed = 0\<rparr>,
      minuteRateLimiter = \<lparr>points = 100, consumed = 0\<rparr>\<rparr>"

text \<open>
  One consumption attempt, as \<open>makeRequest\<close> writes it twice:
  \<open>await rateLimiter.consume(cost); await minuteRateLimiter.consume(1);\<close>.
  The second statement runs only when the first did not throw, and nothing is given back
  when the second throws.
\<close>

definition consume_both :: "nat \<Rightarrow> quota \<Rightarrow> (exn + unit) \<times> quota" where
  "consume_both cost q =
     (case consume (rateLimiter q) cost of
        Inl e \<Rightarrow> (Inl e, q)
      | Inr d \<Rightarrow>
          (case consume (minuteRateLimiter q) 1 of
             Inl e \<Rightarrow> (Inl e, q\<lparr>rateLimiter := d\<rparr>)
           | Inr m \<Rightarrow> (Inr (), q\<lparr>rateLimiter := d, minuteRateLimiter := m\<rparr>)))"

text \<open>
  The rate limiting layers of \<open>makeRequest\<close>: on a rejection wait 5 seconds, try once
  more, and throw \<open>Rate limit exceeded\<close> if that fails too.  The boolean tells whether the
  wait took place.
\<close>

definition rate_limit :: "(quota \<Rightarrow> quota) \<Rightarrow> nat \<Rightarrow> quota \<Rightarrow> (exn + unit) \<times> quota \<times> bool" where
  "rate_limit elapse5 cost q =
     (case consume_both cost q of
        (Inr u, q1) \<Rightarrow> (Inr (), q1, False)
      | (Inl rateLimitError, q1) \<Rightarrow>
          (case consume_both cost (elapse5 q1) of
             (Inr u, q2) \<Rightarrow> (Inr (), q2, True)
           | (Inl retryError, q2) \<Rightarrow>
               (Inl (Error ''Rate limit exceeded. Please try again later.''), q2, True)))"

text \<open>Response payloads, with JavaScript's truthiness (\<open>if (cachedResponse)\<close>).\<close>

datatype json =
    JNull
  | JBool bool
  | JNum int
  | JStr string
  | JArr "json list"
  | JObj "(string \<times> json) list"

fun truthy :: "json \<Rightarrow> bool" where
  "truthy JNull = False"
| "truthy (JBool b) = b"
| "truthy (JNum n) = (n \<noteq> 0)"
| "truthy (JStr s) = (s \<noteq> [])"
| "truthy (JArr xs) = True"
| "truthy (JObj kvs) = True"

text \<open>
  Request parameters are an object with string values, in insertion order.  Assigning a
  property replaces it in place or appends it.
\<close>

type_synonym params = "(string \<times> string) list"

fun set_param :: "params \<Rightarrow> string \<Rightarrow> string \<Rightarrow> params" where
  "set_param [] k v = [(k, v)]"
| "set_param ((k', v') # ps) k v =
     (if k' = k then (k, v) # ps else (k', v') # set_param ps k v)"

text \<open>
  The cache key \<open>endpoint_JSON.stringify(params)\<close> is kept as the pair it serialises.  An
  entry of the cache holds its value and the time, in seconds, at which it expires.
\<close>

type_synonym cache_key = "string \<times> params"

type_synonym cache = "cache_key \<rightharpoonup> json \<times> nat"

text \<open>
  Modelled from the spec: \<open>NodeCache\<close> (package \<open>node-cache\<close>) is not under \<open>src/\<close>.
  Section 4.2: \<open>get(key)\<close> gives the value or a miss, an expired entry being a miss, and
  \<open>set(key, value, ttlSeconds)\<close> stores the value for that many seconds.
\<close>

definition cache_get :: "cache \<Rightarrow> nat \<Rightarrow> cache_key \<Rightarrow> json option" where
  "cache_get c t k =
     (case c k of None \<Rightarrow> None | Some (v, expires) \<Rightarrow> if t < expires then Some v else None)"

definition cache_set :: "cache \<Rightarrow> nat \<Rightarrow> cache_key \<Rightarrow> json \<Rightarrow> nat \<Rightarrow> cache" where
  "cache_set c t k v ttl = c(k \<mapsto> (v, t + ttl))"

section \<open>YouTubeAPIClient.makeRequest\<close>

text \<open>
  The usage counters of the client (\<open>this.usage\<close>).  \<open>lastReset\<close> is kept as the day of
  the month that \<open>getDate()\<close> reads from it.
\<close>

record usage =
  totalRequests :: nat
  requestsToday :: nat
  lastReset :: nat

definition track_usage :: "nat \<Rightarrow> usage \<Rightarrow> usage" where
  "track_usage today_date u =
     (let u1 = u\<lparr>totalRequests := totalRequests u + 1, requestsToday := requestsToday u + 1\<rparr>
      in if today_date \<noteq> lastReset u1 then u1\<lparr>requestsToday := 0, lastReset := today_date\<rparr>
         else u1)"

text \<open>
  The state a request reads and writes: the two limiters and the cache (module-level, shared
  by all clients), the usage counters, and the requests handed to \<open>axios\<close> so far.
\<close>

record client_state =
  limiters :: quota
  apiCache :: cache
  usage :: usage
  axios_calls :: "(string \<times> params) list"

text \<open>
  What a call of \<open>makeRequest\<close> takes from outside: the API key of the client, the clock in
  seconds when the call starts, the day of the month for the usage counters, what the
  5-second wait does to the limiter windows, and the answer of the upstream service to a
  GET.
\<close>

record env =
  apiKey :: string
  now :: nat
  today :: nat
  elapse5 :: "quota \<Rightarrow> quota"
  http_get :: "string \<Rightarrow> params \<Rightarrow> axios_failure + json"

definition cacheTTL :: "string \<Rightarrow> nat" where
  "cacheTTL endpoint =
     (if str_includes endpoint ''/search'' \<or> str_includes endpoint ''/videos'' then 300
      else if str_includes endpoint ''/channels'' then 1800
      else 600)"

text \<open>
  The \<open>catch\<close> block of \<open>makeRequest\<close>.  The tests on the status (403, 404, 500 and above)
  and on the reason code only choose what is written to the console; every branch of
  \<open>error.response\<close> throws the same \<open>Error\<close>.
\<close>

definition api_message :: "string option \<Rightarrow> string" where
  "api_message m = (case m of None \<Rightarrow> ''Unknown error'' | Some t \<Rightarrow> if t = [] then ''Unknown error'' else t)"

fun translate_error :: "exn \<Rightarrow> exn" where
  "translate_error (AxiosError (BadStatus st m reason)) =
     Error (''YouTube API Error: '' @ show_nat st @ '' - '' @ api_message m)"
| "translate_error (AxiosError (NoResponse m)) = Error (''Network error: '' @ m)"
| "translate_error e = Error (''Request error: '' @ exn_message e)"

text \<open>The network call and what follows it (lines 83 to 97 of the client).\<close>

definition fetch_and_cache ::
    "env \<Rightarrow> client_state \<Rightarrow> nat \<Rightarrow> string \<Rightarrow> params \<Rightarrow> (exn + json) \<times> client_state" where
  "fetch_and_cache ev st t endpoint ps =
     (let st1 = st\<lparr>axios_calls := axios_calls st @ [(endpoint, ps)]\<rparr>
      in case http_get ev endpoint ps of
           Inl f \<Rightarrow> (Inl (AxiosError f), st1)
         | Inr data \<Rightarrow>
             (Inr data,
              st1\<lparr>apiCache := cache_set (apiCache st1) t (endpoint, ps) data (cacheTTL endpoint)\<rparr>))"

text \<open>
  The body of the \<open>try\<close> block, in the order of the source: the key is added to the
  parameters, the limiters are consumed, the usage is counted, and only then is the cache
  read.
\<close>

definition makeRequest_try ::
    "env \<Rightarrow> client_state \<Rightarrow> string \<Rightarrow> params \<Rightarrow> nat \<Rightarrow> (exn + json) \<times> client_state" where
  "makeRequest_try ev st endpoint ps0 cost =
     (let ps = set_param ps0 ''key'' (apiKey ev)
      in case rate_limit (elapse5 ev) cost (limiters st) of
           (Inl e, q, waited) \<Rightarrow> (Inl e, st\<lparr>limiters := q\<rparr>)
         | (Inr u, q, waited) \<Rightarrow>
             (let t = now ev + (if waited then 5 else 0);
                  st1 = st\<lparr>limiters := q, usage := track_usage (today ev) (usage st)\<rparr>
              in case cache_get (apiCache st1) t (endpoint, ps) of
                   Some cachedResponse \<Rightarrow>
                     if truthy cachedResponse then (Inr cachedResponse, st1)
                     else fetch_and_cache ev st1 t endpoint ps
                 | None \<Rightarrow> fetch_and_cache ev st1 t endpoint ps))"

definition makeRequest ::
    "env \<Rightarrow> client_state \<Rightarrow> string \<Rightarrow> params \<Rightarrow> nat \<Rightarrow> (exn + json) \<times> client_state" where
  "makeRequest ev st endpoint ps cost =
     (case makeRequest_try ev st endpoint ps cost of
        (Inl error, st') \<Rightarrow> (Inl (translate_error error), st')
      | (Inr data, st') \<Rightarrow> (Inr data, st'))"

section \<open>Pagination: YouTubeChannelService.fetchChannelVideosPaginated\<close>

text \<open>The result of \<open>client.getChannelVideos\<close>: the videos of one page and the next token.\<close>

record 'v page =
  videos :: "'v list"
  nextPageToken :: "string option"

text \<open>\<open>pageToken && ...\<close>: \<open>null\<close> and the empty string are falsy.\<close>

definition truthy_token :: "string option \<Rightarrow> bool" where
  "truthy_token tok = (case tok of None \<Rightarrow> False | Some t \<Rightarrow> t \<noteq> [])"

text \<open>
  The client operation the walker calls, \<open>getChannelVideos(channelId, maxResults, pageToken)\<close>,
  over whatever state \<open>'s\<close> the client and the service behind it have.
\<close>

type_synonym ('s, 'v) page_fetcher =
  "string \<Rightarrow> nat \<Rightarrow> string option \<Rightarrow> 's \<Rightarrow> (exn + 'v page) \<times> 's"

text \<open>
  The \<open>do ... while (pageToken && pagesFetched < maxPages)\<close> loop over its three variables
  \<open>allVideos\<close>, \<open>pageToken\<close> and \<open>pagesFetched\<close>; an exception of the client leaves the loop.
\<close>

function walk_pages ::
    "('s, 'v) page_fetcher \<Rightarrow> string \<Rightarrow> int \<Rightarrow> 'v list \<Rightarrow> string option \<Rightarrow> nat \<Rightarrow> 's
       \<Rightarrow> (exn + 'v list) \<times> 's" where
  "walk_pages getChannelVideos channelId maxPages allVideos pageToken pagesFetched s =
     (case getChannelVideos channelId 50 pageToken s of
        (Inl e, s') \<Rightarrow> (Inl e, s')
      | (Inr result, s') \<Rightarrow>
          (if truthy_token (nextPageToken result) \<and> int (pagesFetched + 1) < maxPages
           then walk_pages getChannelVideos channelId maxPages
                  (allVideos @ videos result) (nextPageToken result) (pagesFetched + 1) s'
           else (Inr (allVideos @ videos result), s')))"
  by pat_completeness auto
termination
  by (relation "measure (\<lambda>(g, c, maxPages, a, t, pagesFetched, s). nat (maxPages - int pagesFetched))")
     auto

declare walk_pages.simps [simp del]

definition fetchChannelVideosPaginated ::
    "('s, 'v) page_fetcher \<Rightarrow> string \<Rightarrow> int \<Rightarrow> 's \<Rightarrow> (exn + 'v list) \<times> 's" where
  "fetchChannelVideosPaginated getChannelVideos channelId maxPages s =
     walk_pages getChannelVideos channelId maxPages [] None 0 s"

text \<open>
  The walk in the words of the spec, for comparison: starting from a token, call the
  listing operation and carry the continuation token forward, until the token is
  exhausted or \<open>n\<close> pages have been requested.  Each entry is the token sent and the answer
  received.
\<close>

fun page_requests ::
    "('s, 'v) page_fetcher \<Rightarrow> string \<Rightarrow> nat \<Rightarrow> string option \<Rightarrow> 's
       \<Rightarrow> (string option \<times> (exn + 'v page)) list" where
  "page_requests get channelId 0 tok s = []"
| "page_requests get channelId (Suc n) tok s =
     (case get channelId 50 tok s of
        (Inl e, s') \<Rightarrow> [(tok, Inl e)]
      | (Inr p, s') \<Rightarrow>
          (tok, Inr p) #
            (if truthy_token (nextPageToken p) then page_requests get channelId n (nextPageToken p) s'
             else []))"

text \<open>The videos of the pages of a walk in page order, or the error that ended it.\<close>

fun collect :: "(string option \<times> (exn + 'v page)) list \<Rightarrow> exn + 'v list" where
  "collect [] = Inr []"
| "collect ((tok, Inl e) # rs) = Inl e"
| "collect ((tok, Inr p) # rs) =
     (case collect rs of Inl e \<Rightarrow> Inl e | Inr vs \<Rightarrow> Inr (videos p @ vs))"

text \<open>
  Every request of a walk but the last was answered with a page whose continuation token
  is present, and that token is the one the next request sends.
\<close>

fun token_chain :: "(string option \<times> (exn + 'v page)) list \<Rightarrow> bool" where
  "token_chain [] = True"
| "token_chain [r] = True"
| "token_chain ((tok, a) # (tok', a') # rs) =
     ((case a of Inl e \<Rightarrow> False
               | Inr p \<Rightarrow> truthy_token (nextPageToken p) \<and> tok' = nextPageToken p)
      \<and> token_chain ((tok', a') # rs))"

text \<open>A client that also records the page token of every call made to it.\<close>

definition logged :: "('s, 'v) page_fetcher \<Rightarrow> ('s \<times> string option list, 'v) page_fetcher" where
  "logged get channelId maxResults tok sl =
     (case get channelId maxResults tok (fst sl) of
        (r, s') \<Rightarrow> (r, (s', snd sl @ [tok])))"

section \<open>Job queue\<close>

text \<open>
  A row of the table \<open>job_queue\<close>: the columns the handlers write (the timestamp columns
  are left out).  \<open>storeJobInDatabase\<close> inserts a row with status \<open>pending\<close>; \<open>progress\<close>
  defaults to 0 and \<open>error_message\<close> to NULL.
\<close>

datatype job_status = pending | started | completed | failed

record job_row =
  status :: job_status
  progress :: nat
  error_message :: "string option"


text \<open>
  The statements \<open>updateJobStatus(jobId, status, errorMessage)\<close> and
  \<open>updateJobProgress(jobId, progress)\<close> send.  Neither has a condition on the current
  status of the row.  For a status other than the three it knows, \<open>updateJobStatus\<close>
  builds no query, and the failing call is caught and logged.
\<close>

datatype db_statement =
    UpdateJobStatus job_status "string option"
  | UpdateJobProgress nat


text \<open>
  One execution of a job handler over the state \<open>'s\<close> of the services it calls: the
  statements it sends to \<open>job_queue\<close>, in order, and its result, which is the value it
  returns or the error it throws again after marking the row failed.
\<close>

type_synonym ('s, 'r) handler = "'s \<Rightarrow> (db_statement list \<times> (exn + 'r)) \<times> 's"


text \<open>\<open>maxPages || 5\<close> replaces a falsy page count by 5.\<close>

definition fetchVideos_handler ::
    "(string \<Rightarrow> int \<Rightarrow> 's \<Rightarrow> (exn + 'v list) \<times> 's) \<Rightarrow> string \<Rightarrow> int \<Rightarrow> ('s, nat) handler" where
  "fetchVideos_handler fetchAndStore channelId maxPages s =
     (case fetchAndStore channelId (if maxPages = 0 then 5 else maxPages) s of
        (Inl error, s1) \<Rightarrow>
          (([UpdateJobStatus started None,
             UpdateJobStatus failed (Some (exn_message error))], Inl error), s1)
      | (Inr vs, s1) \<Rightarrow>
          (([UpdateJobStatus started None, UpdateJobProgress 100,
             UpdateJobStatus completed None], Inr (length vs)), s1))"

text \<open>The options \<open>addChannelFetchJob\<close> and \<open>addVideoFetchJob\<close> give every job.\<close>

datatype backoff_type = Fixed | Exponential













section \<open>YouTubeVideoService.fetchAndStoreChannelVideos\<close>

text \<open>The methods the three classes define, in the order of their class bodies.\<close>

definition YouTubeAPIClient_methods :: "string list" where
  "YouTubeAPIClient_methods =
     [''makeRequest'', ''delay'', ''getChannelInfo'', ''getChannelVideos'',
      ''getVideoDetails'', ''parseDuration'', ''isShort'']"

definition YouTubeChannelService_methods :: "string list" where
  "YouTubeChannelService_methods =
     [''fetchAndStoreChannel'', ''storeChannel'', ''fetchChannelVideosPaginated'',
      ''getChannelAnalytics'', ''updateChannelAnalytics'']"

definition YouTubeVideoService_methods :: "string list" where
  "YouTubeVideoService_methods =
     [''fetchAndStoreChannelVideos'', ''storeVideo'', ''getChannelVideos'', ''getAllVideos'',
      ''getVideoById'', ''getChannelShorts'', ''getVideoStats'']"

text \<open>\<open>for (const video of allVideos) await this.storeVideo(video)\<close>: the first error ends the loop.\<close>

fun store_all :: "('v \<Rightarrow> 's \<Rightarrow> (exn + unit) \<times> 's) \<Rightarrow> 'v list \<Rightarrow> 's \<Rightarrow> (exn + unit) \<times> 's" where
  "store_all storeVideo [] s = (Inr (), s)"
| "store_all storeVideo (video # rest) s =
     (case storeVideo video s of
        (Inl e, s') \<Rightarrow> (Inl e, s')
      | (Inr u, s') \<Rightarrow> store_all storeVideo rest s')"

text \<open>
  \<open>this.client\<close> is a \<open>YouTubeAPIClient\<close>.  Calling a property that the class does not
  define calls \<open>undefined\<close>, which throws a \<open>TypeError\<close>; the \<open>catch\<close> block logs it and
  throws it again.  \<open>call_client\<close> stands for the call of a method the class does define.
\<close>

definition fetchAndStoreChannelVideos ::
    "(string \<Rightarrow> string \<Rightarrow> int \<Rightarrow> 's \<Rightarrow> (exn + 'v list) \<times> 's) \<Rightarrow> ('v \<Rightarrow> 's \<Rightarrow> (exn + unit) \<times> 's)
       \<Rightarrow> string \<Rightarrow> int \<Rightarrow> 's \<Rightarrow> (exn + 'v list) \<times> 's" where
  "fetchAndStoreChannelVideos call_client storeVideo channelId maxPages s =
     (if ''fetchChannelVideosPaginated'' \<in> set YouTubeAPIClient_methods then
        (case call_client ''fetchChannelVideosPaginated'' channelId maxPages s of
           (Inl e, s1) \<Rightarrow> (Inl e, s1)
         | (Inr allVideos, s1) \<Rightarrow>
             (case store_all storeVideo allVideos s1 of
                (Inl e, s2) \<Rightarrow> (Inl e, s2)
              | (Inr u, s2) \<Rightarrow> (Inr allVideos, s2)))
      else (Inl (TypeError ''this.client.fetchChannelVideosPaginated is not a function''), s))"

section \<open>Concrete inputs\<close>

text \<open>The per-minute budget is used up and the daily budget is untouched.\<close>

definition minute_exhausted_quota :: quota where
  "minute_exhausted_quota =
     \<lparr>rateLimiter = \<lparr>points = 10000, consumed = 0\<rparr>,
      minuteRateLimiter = \<lparr>points = 100, consumed = 100\<rparr>\<rparr>"


text \<open>
  A request for the channel \<open>UC1\<close>, as \<open>getChannelInfo\<close> sends it, a service that answers
  every GET with the same payload, a service that fails every GET in a given way, and a
  client that has made no request yet.  The 5-second wait replenishes nothing.
\<close>

definition channel_payload :: json where
  "channel_payload = JObj [(''items'', JArr [JObj [(''id'', JStr ''UC1'')]])]"

definition channel_params :: params where
  "channel_params = [(''id'', ''UC1''), (''part'', ''snippet,statistics'')]"

definition serving_env :: "nat \<Rightarrow> env" where
  "serving_env t =
     \<lparr>apiKey = ''K'', now = t, today = 1, elapse5 = (\<lambda>q. q),
      http_get = (\<lambda>endpoint ps. Inr channel_payload)\<rparr>"


definition fresh_state :: client_state where
  "fresh_state =
     \<lparr>limiters = initial_quota, apiCache = Map.empty,
      usage = \<lparr>totalRequests = 0, requestsToday = 0, lastReset = 1\<rparr>, axios_calls = []\<rparr>"

text \<open>The client after one request for the channel at time 0, which fills the cache.\<close>

definition after_first_request :: client_state where
  "after_first_request =
     snd (makeRequest (serving_env 0) fresh_state ''/channels'' channel_params 1)"




text \<open>A channel with five pages of two videos each, the video identifiers being numbers.\<close>

definition five_pages :: "(unit, nat) page_fetcher" where
  "five_pages channelId maxResults tok s =
     (if tok = None then (Inr \<lparr>videos = [1, 2], nextPageToken = Some ''p2''\<rparr>, s)
      else if tok = Some ''p2'' then (Inr \<lparr>videos = [3, 4], nextPageToken = Some ''p3''\<rparr>, s)
      else if tok = Some ''p3'' then (Inr \<lparr>videos = [5, 6], nextPageToken = Some ''p4''\<rparr>, s)
      else if tok = Some ''p4'' then (Inr \<lparr>videos = [7, 8], nextPageToken = Some ''p5''\<rparr>, s)
      else if tok = Some ''p5'' then (Inr \<lparr>videos = [9, 10], nextPageToken = None\<rparr>, s)
      else (Inl (Error ''YouTube API Error: 400 - Invalid page token''), s))"

section \<open>Duration decoding: proofs\<close>

lemma match_component_hit:
  assumes "list_all is_digit ds" "ds \<noteq> []" "\<not> is_digit u"
  shows "match_component u (ds @ u # rest) = (Some ds, rest)"
proof -
  have "takeWhile is_digit (ds @ u # rest) = ds" "dropWhile is_digit (ds @ u # rest) = u # rest"
    using assms by (simp_all add: list_all_iff)
  then show ?thesis using assms by (simp add: match_component_def)
qed

lemma match_component_miss:
  assumes "list_all is_digit ds" "\<not> is_digit v" "v \<noteq> u"
  shows "match_component u (ds @ v # rest) = (None, ds @ v # rest)"
proof -
  have "dropWhile is_digit (ds @ v # rest) = v # rest"
    using assms by (simp add: list_all_iff)
  then show ?thesis using assms by (simp add: match_component_def)
qed

lemma match_component_Nil: "match_component u [] = (None, [])"
  by (simp add: match_component_def)

lemma not_digit_units:
  "\<not> is_digit CHR ''H''" "\<not> is_digit CHR ''M''" "\<not> is_digit CHR ''S''"
  by (simp_all add: is_digit_def)

lemma match_S:
  assumes "list_all is_digit ss"
  shows "match_component CHR ''S'' (group_text ss CHR ''S'')
         = ((if ss = [] then None else Some ss), [])"
  using match_component_hit [OF assms _ not_digit_units(3), of "[]"]
  by (simp add: group_text_def match_component_Nil)

lemma match_M:
  assumes "list_all is_digit ms" "list_all is_digit ss"
  shows "match_component CHR ''M'' (group_text ms CHR ''M'' @ group_text ss CHR ''S'')
         = ((if ms = [] then None else Some ms), group_text ss CHR ''S'')"
proof (cases "ms = []")
  case False
  then show ?thesis
    using match_component_hit [OF assms(1) _ not_digit_units(2)] by (simp add: group_text_def)
next
  case True
  show ?thesis
  proof (cases "ss = []")
    case True
    with \<open>ms = []\<close> show ?thesis by (simp add: group_text_def match_component_Nil)
  next
    case False
    with \<open>ms = []\<close> show ?thesis
      using match_component_miss [OF assms(2) not_digit_units(3), of "CHR ''M''" "[]"]
      by (simp add: group_text_def)
  qed
qed

lemma match_H:
  assumes "list_all is_digit hs" "list_all is_digit ms" "list_all is_digit ss"
  shows "match_component CHR ''H''
           (group_text hs CHR ''H'' @ group_text ms CHR ''M'' @ group_text ss CHR ''S'')
         = ((if hs = [] then None else Some hs),
            group_text ms CHR ''M'' @ group_text ss CHR ''S'')"
proof (cases "hs = []")
  case False
  then show ?thesis
    using match_component_hit [OF assms(1) _ not_digit_units(1)] by (simp add: group_text_def)
next
  case hs: True
  show ?thesis
  proof (cases "ms = []")
    case False
    with hs show ?thesis
      using match_component_miss [OF assms(2) not_digit_units(2), of "CHR ''H''"]
      by (simp add: group_text_def)
  next
    case ms: True
    show ?thesis
    proof (cases "ss = []")
      case True
      with hs ms show ?thesis by (simp add: group_text_def match_component_Nil)
    next
      case False
      with hs ms show ?thesis
        using match_component_miss [OF assms(3) not_digit_units(3), of "CHR ''H''" "[]"]
        by (simp add: group_text_def)
    qed
  qed
qed

lemma parseInt_or_0_group:
  "parseInt_or_0 (if ds = [] then None else Some ds) = parseInt_digits ds"
  by (simp add: parseInt_or_0_def parseInt_digits_def)

lemma parseDuration_token:
  assumes "list_all is_digit hs" "list_all is_digit ms" "list_all is_digit ss"
  shows "parseDuration (duration_token hs ms ss)
         = parseInt_digits hs * 3600 + parseInt_digits ms * 60 + parseInt_digits ss"
  using match_H [OF assms] match_M [OF assms(2,3)] match_S [OF assms(3)]
  by (simp add: parseDuration_def match_duration_def duration_token_def parseInt_or_0_group)

lemma parseDuration_no_PT: "find_PT d = None \<Longrightarrow> parseDuration d = 0"
  by (simp add: parseDuration_def match_duration_def)

lemma parseDuration_examples:
  "parseDuration ''PT1H2M10S'' = 3730" "parseDuration ''PT45S'' = 45"
  "parseDuration ''PT'' = 0" "parseDuration ''garbage'' = 0"
  by code_simp+

text \<open>
  C8, as stated, fails: \<open>PT1H2M10S\<close> is one hour, two minutes and ten seconds, which the
  decoder adds up to 3730, not 3722; and a malformed input in which \<open>PT\<close> occurs does not
  yield zero, the components that follow the first \<open>PT\<close> being decoded.
\<close>

theorem parseDuration_counterexample:
  "parseDuration ''PT1H2M10S'' = 3730 \<and> parseDuration ''PT1H2M10S'' \<noteq> 3722
   \<and> parseDuration ''PT5Mgarbage'' = 300"
  by code_simp

text \<open>
  C8, amended: on every string the decoder returns a number.  A well-formed token, \<open>PT\<close>
  followed by those of the components hours, minutes and seconds that are present, decodes
  to \<open>hours * 3600 + minutes * 60 + seconds\<close>, a missing component counting as zero (the
  sum is exact in JavaScript while it stays below \<open>2 ^ 53\<close>).  A string in which \<open>PT\<close> does
  not occur decodes to zero.  \<open>PT1H2M10S\<close> decodes to 3730, \<open>PT45S\<close> to 45, \<open>PT\<close> to 0 and
  \<open>garbage\<close> to 0.
\<close>

theorem parseDuration_decodes:
  assumes "list_all is_digit hs" and "list_all is_digit ms" and "list_all is_digit ss"
    and "parseInt_digits hs * 3600 + parseInt_digits ms * 60 + parseInt_digits ss < 2 ^ 53"
    and "find_PT d = None"
  shows "parseDuration (duration_token hs ms ss)
           = parseInt_digits hs * 3600 + parseInt_digits ms * 60 + parseInt_digits ss
         \<and> parseDuration d = 0
         \<and> parseDuration ''PT1H2M10S'' = 3730 \<and> parseDuration ''PT45S'' = 45
         \<and> parseDuration ''PT'' = 0 \<and> parseDuration ''garbage'' = 0"
  using parseDuration_token [OF assms(1-3)] parseDuration_no_PT [OF assms(5)]
    parseDuration_examples
  by simp

theorem parseDuration_decodes_witness:
  "list_all is_digit ''1'' \<and> list_all is_digit ''2'' \<and> list_all is_digit ''10''
   \<and> parseInt_digits ''1'' * 3600 + parseInt_digits ''2'' * 60 + parseInt_digits ''10'' < 2 ^ 53
   \<and> find_PT ''garbage'' = None
   \<and> duration_token ''1'' ''2'' ''10'' = ''PT1H2M10S''
   \<and> parseDuration (duration_token ''1'' ''2'' ''10'') = 3730
   \<and> parseDuration ''garbage'' = 0"
proof -
  have d: "list_all is_digit ''1''" "list_all is_digit ''2''" "list_all is_digit ''10''"
    by (simp_all add: is_digit_def)
  have v: "parseInt_digits ''1'' = 1" "parseInt_digits ''2'' = 2" "parseInt_digits ''10'' = 10"
    by (simp_all add: parseInt_digits_def digit_val_def)
  have b: "parseInt_digits ''1'' * 3600 + parseInt_digits ''2'' * 60 + parseInt_digits ''10''
             < 2 ^ 53"
    by (simp add: v)
  have g: "find_PT ''garbage'' = None" by simp
  have t: "duration_token ''1'' ''2'' ''10'' = ''PT1H2M10S''"
    by (simp add: duration_token_def group_text_def)
  from parseDuration_decodes [OF d b g] d b g t v show ?thesis by simp
qed

section \<open>Shorts classification: proofs\<close>

lemma isShort_iff:
  "isShort categoryId duration tags
     \<longleftrightarrow> duration \<le> 61 \<or> has_short_tag tags \<or> categoryId = Some ''23''"
  by (auto simp add: isShort_def)

text \<open>
  C3: a video of 61 seconds with no tags and category \<open>10\<close> meets none of the three
  criteria (its duration is above 60, no tag contains \<open>short\<close>, its category is not \<open>23\<close>),
  yet the final \<open>return duration <= 61\<close> classifies it as a Short.  At 120 seconds the
  same video is not a Short.
\<close>

theorem isShort_at_61_seconds:
  "isShort (Some ''10'') 61 (Some []) = True
   \<and> has_short_tag (Some []) = False
   \<and> isShort (Some ''10'') 120 (Some []) = False"
  by (simp add: isShort_def has_short_tag_def)

section \<open>Quota Tracker: proofs\<close>




section \<open>makeRequest: proofs\<close>

lemmas makeRequest_defs =
  makeRequest_def makeRequest_try_def rate_limit_def consume_both_def consume_def
  fetch_and_cache_def cache_get_def cache_set_def track_usage_def Let_def

lemma cacheTTL_channels: "cacheTTL ''/channels'' = 1800"
  by (simp add: cacheTTL_def)

lemma first_request:
  "makeRequest (serving_env 0) fresh_state ''/channels'' channel_params 1
     = (Inr channel_payload,
        \<lparr>limiters = \<lparr>rateLimiter = \<lparr>points = 10000, consumed = 1\<rparr>,
                     minuteRateLimiter = \<lparr>points = 100, consumed = 1\<rparr>\<rparr>,
         apiCache =
           [(''/channels'', channel_params @ [(''key'', ''K'')]) \<mapsto> (channel_payload, 1800)],
         usage = \<lparr>totalRequests = 1, requestsToday = 1, lastReset = 1\<rparr>,
         axios_calls = [(''/channels'', channel_params @ [(''key'', ''K'')])]\<rparr>)"
  by (simp add: makeRequest_defs serving_env_def fresh_state_def initial_quota_def
        channel_params_def cacheTTL_channels)

lemma second_request:
  "makeRequest (serving_env 100) after_first_request ''/channels'' channel_params 1
     = (Inr channel_payload,
        \<lparr>limiters = \<lparr>rateLimiter = \<lparr>points = 10000, consumed = 2\<rparr>,
                     minuteRateLimiter = \<lparr>points = 100, consumed = 2\<rparr>\<rparr>,
         apiCache =
           [(''/channels'', channel_params @ [(''key'', ''K'')]) \<mapsto> (channel_payload, 1800)],
         usage = \<lparr>totalRequests = 2, requestsToday = 2, lastReset = 1\<rparr>,
         axios_calls = [(''/channels'', channel_params @ [(''key'', ''K'')])]\<rparr>)"
  unfolding after_first_request_def first_request
  by (simp add: makeRequest_defs serving_env_def channel_params_def channel_payload_def)

lemma exhausted_request:
  "fst (makeRequest (serving_env 100) (after_first_request\<lparr>limiters := minute_exhausted_quota\<rparr>)
          ''/channels'' channel_params 1)
     = Inl (Error ''Request error: Rate limit exceeded. Please try again later.'')"
  unfolding after_first_request_def first_request
  by (simp add: makeRequest_defs serving_env_def minute_exhausted_quota_def)

text \<open>
  C1: the second of two identical requests, 100 seconds after the first, finds the entry of
  the first in the cache (it expires at 1800), returns the cached payload and makes no
  network call.  But the limiters are consumed before the cache is read: the daily and the
  per-minute counter both go from 1 to 2.  And with the per-minute budget used up, the
  same request fails although its answer is in the cache.
\<close>

theorem makeRequest_cache_hit_consumes_quota:
  "cache_get (apiCache after_first_request) 100
       (''/channels'', channel_params @ [(''key'', ''K'')]) = Some channel_payload
   \<and> fst (makeRequest (serving_env 100) after_first_request ''/channels'' channel_params 1)
       = Inr channel_payload
   \<and> axios_calls
        (snd (makeRequest (serving_env 100) after_first_request ''/channels'' channel_params 1))
       = axios_calls after_first_request
   \<and> length (axios_calls after_first_request) = 1
   \<and> consumed (rateLimiter (limiters after_first_request)) = 1
   \<and> consumed (minuteRateLimiter (limiters after_first_request)) = 1
   \<and> consumed (rateLimiter (limiters
        (snd (makeRequest (serving_env 100) after_first_request ''/channels'' channel_params 1))))
       = 2
   \<and> consumed (minuteRateLimiter (limiters
        (snd (makeRequest (serving_env 100) after_first_request ''/channels'' channel_params 1))))
       = 2
   \<and> fst (makeRequest (serving_env 100) (after_first_request\<lparr>limiters := minute_exhausted_quota\<rparr>)
          ''/channels'' channel_params 1)
       = Inl (Error ''Request error: Rate limit exceeded. Please try again later.'')"
  unfolding second_request exhausted_request
  unfolding after_first_request_def first_request
  by (simp add: cache_get_def)








section \<open>YouTubeVideoService: proofs\<close>

text \<open>
  C10: for every channel and page count, whatever the client and the storage would do,
  \<open>fetchAndStoreChannelVideos\<close> throws the \<open>TypeError\<close> of the missing method and leaves the
  state as it was, so no video is stored.  \<open>YouTubeAPIClient\<close> defines no method
  \<open>fetchChannelVideosPaginated\<close>; \<open>YouTubeChannelService\<close> does.  An execution of a
  \<open>video_fetch\<close> job therefore marks the job started and then failed.
\<close>

theorem fetchAndStoreChannelVideos_always_throws:
  "fetchAndStoreChannelVideos call_client storeVideo channelId maxPages s
     = (Inl (TypeError ''this.client.fetchChannelVideosPaginated is not a function''), s)
   \<and> ''fetchChannelVideosPaginated'' \<notin> set YouTubeAPIClient_methods
   \<and> ''fetchChannelVideosPaginated'' \<in> set YouTubeChannelService_methods
   \<and> fetchVideos_handler (fetchAndStoreChannelVideos call_client storeVideo) channelId maxPages s
       = (([UpdateJobStatus started None,
            UpdateJobStatus failed
              (Some ''this.client.fetchChannelVideosPaginated is not a function'')],
           Inl (TypeError ''this.client.fetchChannelVideosPaginated is not a function'')), s)"
  by (simp add: fetchAndStoreChannelVideos_def YouTubeAPIClient_methods_def
        YouTubeChannelService_methods_def fetchVideos_handler_def)

section \<open>Pagination: proofs\<close>

lemma page_requests_length: "length (page_requests get c n tok s) \<le> n"
  by (induction n arbitrary: tok s) (auto split: prod.splits sum.splits)

lemma page_requests_first:
  "0 < n \<Longrightarrow> \<exists>a rs. page_requests get c n tok s = (tok, a) # rs"
  by (cases n) (auto split: prod.splits sum.splits)

lemma page_requests_chain: "token_chain (page_requests get c n tok s)"
proof (induction n arbitrary: tok s)
  case 0
  show ?case by simp
next
  case (Suc n)
  show ?case
  proof (cases "get c 50 tok s")
    case (Pair r s')
    show ?thesis
    proof (cases r)
      case (Inl e)
      with Pair show ?thesis by simp
    next
      case (Inr p)
      show ?thesis
      proof (cases "truthy_token (nextPageToken p) \<and> 0 < n")
        case True
        then obtain a rs where
          rest: "page_requests get c n (nextPageToken p) s' = (nextPageToken p, a) # rs"
          using page_requests_first [of n get c "nextPageToken p" s'] by blast
        from Suc.IH [of "nextPageToken p" s'] rest True Pair Inr show ?thesis by simp
      next
        case False
        with Pair Inr show ?thesis by (cases n) auto
      qed
    qed
  qed
qed

lemma walk_pages_collect:
  assumes "0 < n" and "maxPages = int k + int n"
  shows "fst (walk_pages get c maxPages acc tok k s)
           = (case collect (page_requests get c n tok s) of
                Inl e \<Rightarrow> Inl e | Inr vs \<Rightarrow> Inr (acc @ vs))"
  using assms
proof (induction n arbitrary: acc tok k s)
  case 0
  then show ?case by simp
next
  case (Suc m)
  show ?case
  proof (cases "get c 50 tok s")
    case (Pair r s')
    show ?thesis
    proof (cases r)
      case (Inl e)
      with Pair show ?thesis by (subst walk_pages.simps) simp
    next
      case (Inr p)
      show ?thesis
      proof (cases "truthy_token (nextPageToken p) \<and> 0 < m")
        case True
        have "fst (walk_pages get c maxPages (acc @ videos p) (nextPageToken p) (k + 1) s')
                = (case collect (page_requests get c m (nextPageToken p) s') of
                     Inl e \<Rightarrow> Inl e | Inr vs \<Rightarrow> Inr ((acc @ videos p) @ vs))"
          using Suc.IH [of "k + 1" "acc @ videos p" "nextPageToken p" s'] True Suc.prems by simp
        with True Pair Inr Suc.prems show ?thesis
          by (subst walk_pages.simps) (auto split: sum.splits)
      next
        case False
        with Pair Inr Suc.prems show ?thesis
          by (subst walk_pages.simps) (cases m; auto)
      qed
    qed
  qed
qed

lemma walk_pages_logged:
  assumes "0 < n" and "maxPages = int k + int n"
  shows "snd (snd (walk_pages (logged get) c maxPages acc tok k (s, log)))
           = log @ map fst (page_requests get c n tok s)"
  using assms
proof (induction n arbitrary: acc tok k s log)
  case 0
  then show ?case by simp
next
  case (Suc m)
  show ?case
  proof (cases "get c 50 tok s")
    case (Pair r s')
    then have lg: "logged get c 50 tok (s, log) = (r, (s', log @ [tok]))"
      by (simp add: logged_def)
    show ?thesis
    proof (cases r)
      case (Inl e)
      with Pair lg show ?thesis by (subst walk_pages.simps) simp
    next
      case (Inr p)
      show ?thesis
      proof (cases "truthy_token (nextPageToken p) \<and> 0 < m")
        case True
        have "snd (snd (walk_pages (logged get) c maxPages (acc @ videos p) (nextPageToken p)
                          (k + 1) (s', log @ [tok])))
                = (log @ [tok]) @ map fst (page_requests get c m (nextPageToken p) s')"
          using Suc.IH [of "k + 1" "acc @ videos p" "nextPageToken p" s' "log @ [tok]"]
            True Suc.prems by simp
        with True Pair Inr lg Suc.prems show ?thesis
          by (subst walk_pages.simps) auto
      next
        case False
        with Pair Inr lg Suc.prems show ?thesis
          by (subst walk_pages.simps) (cases m; auto)
      qed
    qed
  qed
qed

lemma sum_case_id: "(case x of Inl e \<Rightarrow> Inl e | Inr vs \<Rightarrow> Inr ([] @ vs)) = x"
  by (cases x) simp_all

text \<open>
  C9: for every client and every \<open>maxPages\<close> of at least 1, the walker returns what the
  walk of the spec collects: the videos of the pages requested, in page order, or the error
  of the request that failed.  Run against a client that records its calls, it has sent
  exactly the requests of that walk: at most \<open>maxPages\<close> of them, each after the first
  carrying the continuation token of the page before, and none after a page without one.
\<close>

theorem fetchChannelVideosPaginated_walk:
  assumes "1 \<le> maxPages"
  shows "fst (fetchChannelVideosPaginated get c maxPages s)
           = collect (page_requests get c (nat maxPages) None s)
         \<and> snd (snd (fetchChannelVideosPaginated (logged get) c maxPages (s, [])))
             = map fst (page_requests get c (nat maxPages) None s)
         \<and> int (length (page_requests get c (nat maxPages) None s)) \<le> maxPages
         \<and> token_chain (page_requests get c (nat maxPages) None s)"
proof -
  from assms have n: "0 < nat maxPages" "maxPages = int 0 + int (nat maxPages)" by simp_all
  have len: "int (length (page_requests get c (nat maxPages) None s)) \<le> maxPages"
    using page_requests_length [of get c "nat maxPages" None s] assms by arith
  show ?thesis
    using walk_pages_collect [OF n, of get c "[]" None s]
      walk_pages_logged [OF n, of get c "[]" None s "[]"] len
      page_requests_chain [of get c "nat maxPages" None s]
    by (simp add: fetchChannelVideosPaginated_def sum_case_id)
qed

lemma five_pages_requests:
  "page_requests five_pages ''UC1'' 2 None ()
     = [(None, Inr \<lparr>videos = [1, 2], nextPageToken = Some ''p2''\<rparr>),
        (Some ''p2'', Inr \<lparr>videos = [3, 4], nextPageToken = Some ''p3''\<rparr>)]"
  by (simp add: numeral_2_eq_2 five_pages_def truthy_token_def)

theorem fetchChannelVideosPaginated_walk_witness:
  "(1::int) \<le> 2
   \<and> fst (fetchChannelVideosPaginated five_pages ''UC1'' 2 ()) = Inr [1, 2, 3, 4]
   \<and> snd (snd (fetchChannelVideosPaginated (logged five_pages) ''UC1'' 2 ((), [])))
       = [None, Some ''p2'']"
proof -
  have h: "(1::int) \<le> 2" by simp
  from fetchChannelVideosPaginated_walk [OF h, of five_pages "''UC1''" "()"] h
  show ?thesis by (simp add: five_pages_requests)
qed

section \<open>Job queue: proofs\<close>


























end
